theory Spec2Isabelle
  imports Main
begin

section \<open>Data model\<close>

text \<open>
  The server keeps events in a MongoDB collection (models/Event.js) and serves them
  through the Express router of routes/events.js. The identifiers the server itself
  issues (\<open>_id\<close>, \<open>createdBy\<close>, the elements of \<open>attendees\<close>, and \<open>req.user.id\<close>, which
  the authentication middleware reads from a token the server signed) are ObjectIds in
  their canonical string rendering, so that \<open>String(a) === String(b)\<close> and the store's
  own equality on ObjectIds are both equality of strings. \<open>req.params.id\<close> is whatever
  string the URL carries.

  The record lists the ten paths of \<open>eventSchema\<close>. \<open>capacity\<close> is a JavaScript Number:
  every value the handlers store comes out of \<open>parseInt\<close> and is an integer. \<open>dateTime\<close>
  is the time value of the Date. The \<open>createdAt\<close>/\<open>updatedAt\<close> stamps that the option
  \<open>timestamps: true\<close> adds read the wall clock and are left out.
\<close>

type_synonym object_id = string

record event =
  title :: string
  description :: string
  dateTime :: int
  location :: string
  capacity :: int
  category :: string
  imageData :: "string option"
  imageContentType :: "string option"
  createdBy :: object_id
  attendees :: "object_id list"

text \<open>The collection: at most one document under each \<open>_id\<close>.\<close>

type_synonym store = "object_id \<rightharpoonup> event"

subsection \<open>HTTP responses\<close>

text \<open>
  \<open>res.status(c).json({ message })\<close> is \<open>Message\<close>; \<open>res.json(event)\<close> is \<open>EventJson\<close> with
  the document's \<open>_id\<close>; \<open>res.json({...updated, attendeeCount})\<close> is \<open>EventWithCount\<close>.
\<close>

datatype payload =
  Message string
| EventJson object_id event
| EventWithCount object_id event nat

record response =
  status :: nat
  body :: payload

definition reply :: "nat \<Rightarrow> string \<Rightarrow> response" where
  "reply c m = \<lparr>status = c, body = Message m\<rparr>"

section \<open>The store's conditional update\<close>

text \<open>
  \<open>Event.findOneAndUpdate(filter, update, { new: true })\<close> finds the document with the
  filter's \<open>_id\<close>, tests the rest of the filter on it, applies the update and returns the
  updated document, all as one step of the store; it returns \<open>null\<close> and changes nothing
  when no document matches. The two filters of the router are
  \<open>{ _id, attendees: { $ne: userId }, $expr: { $lt: [{ $size: "$attendees" }, "$capacity"] } }\<close>
  and \<open>{ _id }\<close>; the two updates are \<open>$addToSet\<close> and \<open>$pull\<close> on \<open>attendees\<close>.
\<close>

record query =
  q_id :: object_id
  q_attendees_ne :: "object_id option"
  q_size_lt_capacity :: bool

datatype update = AddToSet object_id | Pull object_id

definition matches :: "query \<Rightarrow> event \<Rightarrow> bool" where
  "matches q e =
     ((case q_attendees_ne q of None \<Rightarrow> True | Some u \<Rightarrow> u \<notin> set (attendees e)) \<and>
      (if q_size_lt_capacity q then int (length (attendees e)) < capacity e else True))"

fun apply_update :: "update \<Rightarrow> event \<Rightarrow> event" where
  "apply_update (AddToSet u) e =
     e\<lparr>attendees := (if u \<in> set (attendees e) then attendees e else attendees e @ [u])\<rparr>"
| "apply_update (Pull u) e = e\<lparr>attendees := filter (\<lambda>a. a \<noteq> u) (attendees e)\<rparr>"

definition findOneAndUpdate :: "store \<Rightarrow> query \<Rightarrow> update \<Rightarrow> event option \<times> store" where
  "findOneAndUpdate s q u =
     (case s (q_id q) of
        None \<Rightarrow> (None, s)
      | Some e \<Rightarrow>
          if matches q e
          then (let e' = apply_update u e in (Some e', s(q_id q \<mapsto> e')))
          else (None, s))"

definition findById :: "store \<Rightarrow> object_id \<Rightarrow> event option" where
  "findById s i = s i"

text \<open>
  The two calls as the handlers await them. Mongoose casts the \<open>_id\<close> of a filter to an
  ObjectId before the query reaches the store and throws a \<open>CastError\<close> for a string it
  cannot cast. Which strings it casts depends on the driver: \<open>castable\<close> is a parameter.
\<close>

datatype error = CastError

definition Event_findOneAndUpdate ::
  "(string \<Rightarrow> bool) \<Rightarrow> store \<Rightarrow> query \<Rightarrow> update \<Rightarrow> error + event option \<times> store" where
  "Event_findOneAndUpdate castable s q u =
     (if castable (q_id q) then Inr (findOneAndUpdate s q u) else Inl CastError)"

definition Event_findById :: "(string \<Rightarrow> bool) \<Rightarrow> store \<Rightarrow> string \<Rightarrow> error + event option" where
  "Event_findById castable s i = (if castable i then Inr (findById s i) else Inl CastError)"

text \<open>
  Every document of the collection has an ObjectId for its \<open>_id\<close>: no document is stored
  under a string that cannot be cast.
\<close>

definition well_keyed :: "(string \<Rightarrow> bool) \<Rightarrow> store \<Rightarrow> bool" where
  "well_keyed castable s = (\<forall>k. s k \<noteq> None \<longrightarrow> castable k)"

section \<open>Join and leave\<close>

text \<open>
  \<open>POST /:id/rsvp\<close>. The handler awaits the conditional update and, when that returned
  \<open>null\<close>, awaits a second, read-only \<open>findById\<close> to word the refusal. Other requests can
  be served between the two awaits: \<open>env\<close> is what they did to the collection in between
  (the identity when the handler runs alone). A call that throws ends in the handler's
  \<open>catch\<close>, which answers 500.
\<close>

definition rsvp_query :: "object_id \<Rightarrow> object_id \<Rightarrow> query" where
  "rsvp_query eventId userId =
     \<lparr>q_id = eventId, q_attendees_ne = Some userId, q_size_lt_capacity = True\<rparr>"

definition rsvp_refusal :: "event option \<Rightarrow> object_id \<Rightarrow> response" where
  "rsvp_refusal existing userId =
     (case existing of
        None \<Rightarrow> reply 404 ''Event not found''
      | Some ex \<Rightarrow>
          if \<exists>a \<in> set (attendees ex). a = userId
          then reply 400 ''You have already RSVPed to this event''
          else if int (length (attendees ex)) \<ge> capacity ex
          then reply 400 ''Event is already full''
          else reply 400 ''Unable to RSVP. Please try again.'')"

definition rsvp ::
  "(string \<Rightarrow> bool) \<Rightarrow> (store \<Rightarrow> store) \<Rightarrow> store \<Rightarrow> string \<Rightarrow> object_id \<Rightarrow> response \<times> store" where
  "rsvp castable env s eventId userId =
     (case Event_findOneAndUpdate castable s (rsvp_query eventId userId) (AddToSet userId) of
        Inl err \<Rightarrow> (reply 500 ''Server error'', s)
      | Inr (None, s') \<Rightarrow>
          (let s'' = env s' in
             (case Event_findById castable s'' eventId of
                Inl err \<Rightarrow> (reply 500 ''Server error'', s'')
              | Inr existing \<Rightarrow> (rsvp_refusal existing userId, s'')))
      | Inr (Some updated, s') \<Rightarrow>
          (\<lparr>status = 200,
            body = EventWithCount eventId updated (length (attendees updated))\<rparr>, s'))"

text \<open>\<open>POST /:id/unrsvp\<close>: one unconditional \<open>$pull\<close>.\<close>

definition unrsvp_query :: "object_id \<Rightarrow> query" where
  "unrsvp_query eventId = \<lparr>q_id = eventId, q_attendees_ne = None, q_size_lt_capacity = False\<rparr>"

definition unrsvp :: "(string \<Rightarrow> bool) \<Rightarrow> store \<Rightarrow> string \<Rightarrow> object_id \<Rightarrow> response \<times> store" where
  "unrsvp castable s eventId userId =
     (case Event_findOneAndUpdate castable s (unrsvp_query eventId) (Pull userId) of
        Inl err \<Rightarrow> (reply 500 ''Server error'', s)
      | Inr (None, s') \<Rightarrow> (reply 404 ''Event not found'', s')
      | Inr (Some updated, s') \<Rightarrow>
          (\<lparr>status = 200,
            body = EventWithCount eventId updated (length (attendees updated))\<rparr>, s'))"

text \<open>
  A run of join and leave requests against one event, each served alone. The store
  applies the conditional updates of concurrent requests one at a time, and the reads
  that word a refusal change nothing, so the list is the order in which the store
  applied them.
\<close>

datatype request = Join object_id | Leave object_id

fun serve :: "(string \<Rightarrow> bool) \<Rightarrow> store \<Rightarrow> string \<Rightarrow> request \<Rightarrow> response \<times> store" where
  "serve castable s eventId (Join userId) = rsvp castable (\<lambda>x. x) s eventId userId"
| "serve castable s eventId (Leave userId) = unrsvp castable s eventId userId"

fun serve_all ::
  "(string \<Rightarrow> bool) \<Rightarrow> store \<Rightarrow> string \<Rightarrow> request list \<Rightarrow> response list \<times> store" where
  "serve_all castable s eventId [] = ([], s)"
| "serve_all castable s eventId (r # rs) =
     (case serve castable s eventId r of
        (res, s') \<Rightarrow>
          (case serve_all castable s' eventId rs of (ress, s'') \<Rightarrow> (res # ress, s'')))"

definition succeeded :: "response \<Rightarrow> bool" where
  "succeeded res = (status res = 200)"

section \<open>Request bodies\<close>

text \<open>
  \<open>req.body\<close> comes from \<open>express.json()\<close> or from multer's multipart parser, so a field
  is absent (\<open>undefined\<close>), a string, or another JSON scalar. Numbers are the integers
  (fractions and the exponent notation of \<open>ToString\<close> from \<open>1e21\<close> on are left out), and
  arrays and objects are left out.
\<close>

datatype js_value = JUndefined | JNull | JBool bool | JNum int | JStr string

fun truthy :: "js_value \<Rightarrow> bool" where
  "truthy JUndefined = False"
| "truthy JNull = False"
| "truthy (JBool b) = b"
| "truthy (JNum n) = (n \<noteq> 0)"
| "truthy (JStr s) = (s \<noteq> [])"

fun digits :: "nat \<Rightarrow> string" where
  "digits n =
     (if n < 10 then [''0123456789'' ! n]
      else digits (n div 10) @ [''0123456789'' ! (n mod 10)])"

fun ToString :: "js_value \<Rightarrow> string" where
  "ToString JUndefined = ''undefined''"
| "ToString JNull = ''null''"
| "ToString (JBool b) = (if b then ''true'' else ''false'')"
| "ToString (JNum n) = (if n < 0 then CHR ''-'' # digits (nat (- n)) else digits (nat n))"
| "ToString (JStr s) = s"

record event_form =
  f_title :: js_value
  f_description :: js_value
  f_dateTime :: js_value
  f_location :: js_value
  f_capacity :: js_value
  f_category :: js_value

text \<open>
  \<open>req.file\<close> as multer's memory storage leaves it, for a file its filter accepted:
  \<open>buffer_base64\<close> is \<open>req.file.buffer.toString('base64')\<close>.
\<close>

record upload =
  buffer_base64 :: string
  mimetype :: string

section \<open>Creating, editing and deleting events\<close>

text \<open>
  Two functions of the language are parameters of the handlers. \<open>parseInt\<close> is
  \<open>parseInt(v, 10)\<close>: \<open>None\<close> for \<open>NaN\<close>, and otherwise the Number it returns, which is
  whole; the infinite Number it returns for a run of digits beyond the range is left
  out, \<open>capacity\<close> being an integer here. \<open>parse_date\<close> is \<open>new Date(v)\<close>: the time
  value, or \<open>None\<close> for an Invalid Date, which the schema's Date path refuses when the
  document is validated on \<open>create\<close> and \<open>save\<close>; the handler's \<open>catch\<close> answers 500
  then. A String path takes a truthy scalar by its string.

  \<open>POST /\<close>. \<open>new_id\<close> is the \<open>_id\<close> the driver generates for the new document; the
  unique index on \<open>_id\<close> makes the insert fail if it were taken. The handler does not
  read \<open>category\<close> from the body, so the schema's default stands.
\<close>

definition create ::
  "(js_value \<Rightarrow> int option) \<Rightarrow> (js_value \<Rightarrow> int option) \<Rightarrow> object_id \<Rightarrow> store \<Rightarrow> object_id
     \<Rightarrow> event_form \<Rightarrow> upload option \<Rightarrow> response \<times> store" where
  "create parseInt parse_date new_id s user_id form file =
     (if \<not> truthy (f_title form) \<or> \<not> truthy (f_description form) \<or> \<not> truthy (f_dateTime form)
         \<or> \<not> truthy (f_location form) \<or> \<not> truthy (f_capacity form)
      then (reply 400 ''All fields are required'', s)
      else
        (case parseInt (f_capacity form) of
           None \<Rightarrow> (reply 400 ''Capacity must be a positive number'', s)
         | Some parsedCapacity \<Rightarrow>
             if parsedCapacity < 1 then (reply 400 ''Capacity must be a positive number'', s)
             else
               (case parse_date (f_dateTime form) of
                  None \<Rightarrow> (reply 500 ''Server error'', s)
                | Some d \<Rightarrow>
                    if s new_id \<noteq> None then (reply 500 ''Server error'', s)
                    else
                      (let event =
                         \<lparr>title = ToString (f_title form),
                          description = ToString (f_description form),
                          dateTime = d,
                          location = ToString (f_location form),
                          capacity = parsedCapacity,
                          category = ''General'',
                          imageData = map_option buffer_base64 file,
                          imageContentType = map_option mimetype file,
                          createdBy = user_id,
                          attendees = []\<rparr>
                       in (\<lparr>status = 201, body = EventJson new_id event\<rparr>,
                           s(new_id \<mapsto> event))))))"

text \<open>
  \<open>PUT /:id\<close>. The assignments to the loaded document, in the handler's order; the
  capacity block can answer 400 before anything is saved. The handler is served alone:
  nothing else touches the collection between its \<open>findById\<close> and its \<open>save\<close>.
\<close>

definition put_fields :: "(js_value \<Rightarrow> int option) \<Rightarrow> event_form \<Rightarrow> event \<Rightarrow> event \<times> int option" where
  "put_fields parse_date form event =
     (let e1 = (if truthy (f_title form) then event\<lparr>title := ToString (f_title form)\<rparr> else event);
          e2 = (if truthy (f_description form)
                then e1\<lparr>description := ToString (f_description form)\<rparr> else e1);
          d = (if truthy (f_dateTime form) then parse_date (f_dateTime form)
               else Some (dateTime e2));
          e3 = (if truthy (f_location form)
                then e2\<lparr>location := ToString (f_location form)\<rparr> else e2);
          e4 = (if truthy (f_category form)
                then e3\<lparr>category := ToString (f_category form)\<rparr> else e3)
      in (e4, d))"

definition put_capacity :: "(js_value \<Rightarrow> int option) \<Rightarrow> js_value \<Rightarrow> event \<Rightarrow> response + event" where
  "put_capacity parseInt capacity_field event =
     (if truthy capacity_field
      then
        (case parseInt capacity_field of
           None \<Rightarrow> Inl (reply 400 ''Capacity must be a positive number'')
         | Some parsedCapacity \<Rightarrow>
             if parsedCapacity < 1 then Inl (reply 400 ''Capacity must be a positive number'')
             else if parsedCapacity < int (length (attendees event))
             then Inl (reply 400 ''Capacity cannot be less than current attendee count'')
             else Inr (event\<lparr>capacity := parsedCapacity\<rparr>))
      else Inr event)"

definition put_image :: "upload option \<Rightarrow> event \<Rightarrow> event" where
  "put_image file event =
     (case file of
        None \<Rightarrow> event
      | Some f \<Rightarrow> event\<lparr>imageData := Some (buffer_base64 f), imageContentType := Some (mimetype f)\<rparr>)"

definition put ::
  "(string \<Rightarrow> bool) \<Rightarrow> (js_value \<Rightarrow> int option) \<Rightarrow> (js_value \<Rightarrow> int option) \<Rightarrow> store \<Rightarrow> string
     \<Rightarrow> object_id \<Rightarrow> event_form \<Rightarrow> upload option \<Rightarrow> response \<times> store" where
  "put castable parseInt parse_date s eventId user_id form file =
     (case Event_findById castable s eventId of
        Inl err \<Rightarrow> (reply 500 ''Server error'', s)
      | Inr None \<Rightarrow> (reply 404 ''Event not found'', s)
      | Inr (Some event) \<Rightarrow>
          if createdBy event \<noteq> user_id
          then (reply 403 ''Not authorized to edit this event'', s)
          else
            (case put_fields parse_date form event of
               (e4, d) \<Rightarrow>
                 (case put_capacity parseInt (f_capacity form) e4 of
                    Inl refusal \<Rightarrow> (refusal, s)
                  | Inr e5 \<Rightarrow>
                      (case d of
                         None \<Rightarrow> (reply 500 ''Server error'', s)
                       | Some t \<Rightarrow>
                           (let saved = (put_image file e5)\<lparr>dateTime := t\<rparr>
                            in (\<lparr>status = 200, body = EventJson eventId saved\<rparr>,
                                s(eventId \<mapsto> saved)))))))"

text \<open>\<open>DELETE /:id\<close>.\<close>

definition delete_event :: "(string \<Rightarrow> bool) \<Rightarrow> store \<Rightarrow> string \<Rightarrow> object_id \<Rightarrow> response \<times> store" where
  "delete_event castable s eventId user_id =
     (case Event_findById castable s eventId of
        Inl err \<Rightarrow> (reply 500 ''Server error'', s)
      | Inr None \<Rightarrow> (reply 404 ''Event not found'', s)
      | Inr (Some event) \<Rightarrow>
          if createdBy event \<noteq> user_id
          then (reply 403 ''Not authorized to delete this event'', s)
          else (reply 200 ''Event deleted'', s(eventId := None)))"

section \<open>The specification's outcomes\<close>

text \<open>
  The four reasons the specification gives for a refused join, each with the answer
  the router sends for it, and the specification's reading of the diagnostic lookup:
  existence first, then membership, then capacity.
\<close>

datatype reason = NotFound | AlreadyJoined | Full | Conflict

fun refusal_of :: "reason \<Rightarrow> response" where
  "refusal_of NotFound = reply 404 ''Event not found''"
| "refusal_of AlreadyJoined = reply 400 ''You have already RSVPed to this event''"
| "refusal_of Full = reply 400 ''Event is already full''"
| "refusal_of Conflict = reply 400 ''Unable to RSVP. Please try again.''"

definition spec_classify :: "event option \<Rightarrow> object_id \<Rightarrow> reason" where
  "spec_classify existing userId =
     (case existing of
        None \<Rightarrow> NotFound
      | Some ex \<Rightarrow>
          if userId \<in> set (attendees ex) then AlreadyJoined
          else if capacity ex \<le> int (length (attendees ex)) then Full
          else Conflict)"

text \<open>The data model's two invariants of an event.\<close>

definition within_capacity :: "event \<Rightarrow> bool" where
  "within_capacity e = (int (length (attendees e)) \<le> capacity e)"

definition no_duplicates :: "event \<Rightarrow> bool" where
  "no_duplicates e = distinct (attendees e)"

subsection \<open>Sample data\<close>

text \<open>
  A sample cast, which takes the strings of 24 hexadecimal digits, two event
  identifiers it takes, and a collection holding one event under the first.
\<close>

definition hex24 :: "string \<Rightarrow> bool" where
  "hex24 i = (length i = 24 \<and> list_all (\<lambda>c. c \<in> set ''0123456789abcdefABCDEF'') i)"

definition e1 :: object_id where
  "e1 = ''64b7f0c2a1d3e4f5a6b7c8d1''"

definition e9 :: object_id where
  "e9 = ''64b7f0c2a1d3e4f5a6b7c8d9''"

definition meetup :: event where
  "meetup =
     \<lparr>title = ''Meetup'', description = ''Monthly meetup'', dateTime = 1800000000000,
      location = ''Hall'', capacity = 2, category = ''General'', imageData = None,
      imageContentType = None, createdBy = ''u0'', attendees = [''u1'']\<rparr>"

definition db :: store where
  "db = Map.empty(e1 \<mapsto> meetup)"

definition packed :: store where
  "packed = Map.empty(e1 \<mapsto> meetup\<lparr>attendees := [''u1'', ''u2'']\<rparr>)"

definition no_form :: event_form where
  "no_form =
     \<lparr>f_title = JUndefined, f_description = JUndefined, f_dateTime = JUndefined,
      f_location = JUndefined, f_capacity = JUndefined, f_category = JUndefined\<rparr>"

section \<open>Facts about the join handler\<close>

lemma rsvp_query_matches:
  "matches (rsvp_query eventId userId) e \<longleftrightarrow>
     userId \<notin> set (attendees e) \<and> int (length (attendees e)) < capacity e"
  by (simp add: matches_def rsvp_query_def)

lemma rsvp_query_id: "q_id (rsvp_query eventId userId) = eventId"
  by (simp add: rsvp_query_def)

lemma well_keyedD: "well_keyed castable s \<Longrightarrow> s k = Some e \<Longrightarrow> castable k"
  by (simp add: well_keyed_def)

lemma rsvp_uncastable:
  "\<not> castable eventId \<Longrightarrow>
   rsvp castable env s eventId userId = (reply 500 ''Server error'', s)"
  by (simp add: rsvp_def Event_findOneAndUpdate_def rsvp_query_id)

lemma rsvp_missing:
  "castable eventId \<Longrightarrow> s eventId = None \<Longrightarrow>
   rsvp castable env s eventId userId = (rsvp_refusal (env s eventId) userId, env s)"
  by (simp add: rsvp_def Event_findOneAndUpdate_def Event_findById_def findOneAndUpdate_def
        rsvp_query_id findById_def Let_def)

lemma rsvp_admitted:
  "castable eventId \<Longrightarrow> s eventId = Some e \<Longrightarrow> userId \<notin> set (attendees e) \<Longrightarrow>
   int (length (attendees e)) < capacity e \<Longrightarrow>
   rsvp castable env s eventId userId =
     (\<lparr>status = 200,
       body = EventWithCount eventId (e\<lparr>attendees := attendees e @ [userId]\<rparr>)
                (Suc (length (attendees e)))\<rparr>,
      s(eventId \<mapsto> e\<lparr>attendees := attendees e @ [userId]\<rparr>))"
  by (simp add: rsvp_def Event_findOneAndUpdate_def findOneAndUpdate_def rsvp_query_matches
        rsvp_query_id Let_def)

lemma rsvp_refused:
  "castable eventId \<Longrightarrow> s eventId = Some e \<Longrightarrow>
   \<not> (userId \<notin> set (attendees e) \<and> int (length (attendees e)) < capacity e) \<Longrightarrow>
   rsvp castable env s eventId userId = (rsvp_refusal (env s eventId) userId, env s)"
  by (auto simp add: rsvp_def Event_findOneAndUpdate_def Event_findById_def
        findOneAndUpdate_def rsvp_query_matches rsvp_query_id findById_def Let_def)

lemma rsvp_refusal_is_refusal_of:
  "rsvp_refusal existing userId = refusal_of (spec_classify existing userId)"
  by (simp add: rsvp_refusal_def spec_classify_def split: option.split)

lemma refusal_of_not_succeeded: "\<not> succeeded (refusal_of r)"
  by (cases r) (simp_all add: succeeded_def reply_def)

lemma refusal_of_inj: "refusal_of r = refusal_of r' \<Longrightarrow> r = r'"
  by (cases r; cases r') (simp_all add: reply_def)

lemma server_error_not_succeeded: "\<not> succeeded (reply 500 ''Server error'')"
  by (simp add: succeeded_def reply_def)

lemma rsvp_succeededD:
  assumes "succeeded (fst (rsvp castable env s eventId userId))"
  shows "castable eventId \<and> (\<exists>e. s eventId = Some e \<and> userId \<notin> set (attendees e)
           \<and> int (length (attendees e)) < capacity e)"
proof -
  have c: "castable eventId"
  proof (rule ccontr)
    assume "\<not> castable eventId"
    then have "rsvp castable env s eventId userId = (reply 500 ''Server error'', s)"
      by (rule rsvp_uncastable)
    with assms show False
      by (simp add: server_error_not_succeeded)
  qed
  show ?thesis
  proof (cases "s eventId")
    case None
    with c assms show ?thesis
      by (simp add: rsvp_missing rsvp_refusal_is_refusal_of refusal_of_not_succeeded)
  next
    case (Some e)
    have "userId \<notin> set (attendees e) \<and> int (length (attendees e)) < capacity e"
    proof (rule ccontr)
      assume "\<not> (userId \<notin> set (attendees e) \<and> int (length (attendees e)) < capacity e)"
      with c Some
      have "rsvp castable env s eventId userId = (rsvp_refusal (env s eventId) userId, env s)"
        by (rule rsvp_refused)
      with assms show False
        by (simp add: rsvp_refusal_is_refusal_of refusal_of_not_succeeded)
    qed
    with c Some show ?thesis by simp
  qed
qed

lemma findOneAndUpdate_null:
  "fst (findOneAndUpdate s q u) = None \<Longrightarrow> snd (findOneAndUpdate s q u) = s"
  by (simp add: findOneAndUpdate_def Let_def split: option.splits if_splits)

section \<open>Facts about leaving and about runs of requests\<close>

lemma unrsvp_uncastable:
  "\<not> castable eventId \<Longrightarrow>
   unrsvp castable s eventId userId = (reply 500 ''Server error'', s)"
  by (simp add: unrsvp_def Event_findOneAndUpdate_def unrsvp_query_def)

lemma unrsvp_missing:
  "castable eventId \<Longrightarrow> s eventId = None \<Longrightarrow>
   unrsvp castable s eventId userId = (reply 404 ''Event not found'', s)"
  by (simp add: unrsvp_def Event_findOneAndUpdate_def findOneAndUpdate_def unrsvp_query_def)

lemma unrsvp_existing:
  "castable eventId \<Longrightarrow> s eventId = Some e \<Longrightarrow>
   unrsvp castable s eventId userId =
     (\<lparr>status = 200,
       body = EventWithCount eventId (e\<lparr>attendees := filter (\<lambda>a. a \<noteq> userId) (attendees e)\<rparr>)
                (length (filter (\<lambda>a. a \<noteq> userId) (attendees e)))\<rparr>,
      s(eventId \<mapsto> e\<lparr>attendees := filter (\<lambda>a. a \<noteq> userId) (attendees e)\<rparr>))"
  by (simp add: unrsvp_def Event_findOneAndUpdate_def findOneAndUpdate_def unrsvp_query_def
        matches_def Let_def)

lemma join_member:
  "castable eventId \<Longrightarrow> s eventId = Some e \<Longrightarrow> u \<in> set (attendees e) \<Longrightarrow>
   serve castable s eventId (Join u) = (refusal_of AlreadyJoined, s)"
  by (simp add: rsvp_refused rsvp_refusal_is_refusal_of spec_classify_def)

lemma join_full:
  "castable eventId \<Longrightarrow> s eventId = Some e \<Longrightarrow> u \<notin> set (attendees e) \<Longrightarrow>
   capacity e \<le> int (length (attendees e)) \<Longrightarrow>
   serve castable s eventId (Join u) = (refusal_of Full, s)"
  by (simp add: rsvp_refused rsvp_refusal_is_refusal_of spec_classify_def)

lemma join_admitted:
  "castable eventId \<Longrightarrow> s eventId = Some e \<Longrightarrow> u \<notin> set (attendees e) \<Longrightarrow>
   int (length (attendees e)) < capacity e \<Longrightarrow>
   serve castable s eventId (Join u) =
     (\<lparr>status = 200,
       body = EventWithCount eventId (e\<lparr>attendees := attendees e @ [u]\<rparr>)
                (Suc (length (attendees e)))\<rparr>,
      s(eventId \<mapsto> e\<lparr>attendees := attendees e @ [u]\<rparr>))"
  by (simp add: rsvp_admitted)

lemma succeeded_200: "succeeded \<lparr>status = 200, body = b\<rparr>"
  by (simp add: succeeded_def)

lemma serve_all_Cons:
  "serve_all castable s eventId (r # rs) =
     (fst (serve castable s eventId r)
        # fst (serve_all castable (snd (serve castable s eventId r)) eventId rs),
      snd (serve_all castable (snd (serve castable s eventId r)) eventId rs))"
  by (simp split: prod.splits)

lemma serve_keeps_event:
  assumes "castable eventId" and "s eventId = Some e"
  shows "\<exists>e'. snd (serve castable s eventId r) eventId = Some e' \<and> capacity e' = capacity e
           \<and> (within_capacity e \<longrightarrow> within_capacity e')
           \<and> (no_duplicates e \<longrightarrow> no_duplicates e')
           \<and> (\<forall>u. u \<in> set (attendees e) \<and> r \<noteq> Leave u \<longrightarrow> u \<in> set (attendees e'))"
proof (cases r)
  case (Join u)
  consider (member) "u \<in> set (attendees e)"
    | (full) "u \<notin> set (attendees e)" "capacity e \<le> int (length (attendees e))"
    | (room) "u \<notin> set (attendees e)" "int (length (attendees e)) < capacity e"
    by linarith
  then show ?thesis
  proof cases
    case member
    with assms have "serve castable s eventId (Join u) = (refusal_of AlreadyJoined, s)"
      by (rule join_member)
    with assms Join show ?thesis by simp
  next
    case full
    with assms have "serve castable s eventId (Join u) = (refusal_of Full, s)"
      by (rule join_full)
    with assms Join show ?thesis by simp
  next
    case room
    with assms have "snd (serve castable s eventId (Join u)) =
        s(eventId \<mapsto> e\<lparr>attendees := attendees e @ [u]\<rparr>)"
      by (simp add: rsvp_admitted)
    with room Join show ?thesis
      by (simp add: within_capacity_def no_duplicates_def)
  qed
next
  case (Leave u)
  let ?e = "e\<lparr>attendees := filter (\<lambda>a. a \<noteq> u) (attendees e)\<rparr>"
  have wc: "within_capacity ?e" if "within_capacity e"
  proof -
    have "int (length (filter (\<lambda>a. a \<noteq> u) (attendees e))) \<le> int (length (attendees e))"
      by simp
    also from that have "\<dots> \<le> capacity e"
      by (simp add: within_capacity_def)
    finally show ?thesis
      by (simp add: within_capacity_def)
  qed
  from assms have "snd (serve castable s eventId (Leave u)) = s(eventId \<mapsto> ?e)"
    by (simp add: unrsvp_existing)
  with Leave wc show ?thesis
    by (auto simp add: no_duplicates_def)
qed

lemma serve_all_keeps_event:
  "castable eventId \<Longrightarrow> s eventId = Some e \<Longrightarrow>
   \<exists>e'. snd (serve_all castable s eventId rs) eventId = Some e' \<and> capacity e' = capacity e
      \<and> (within_capacity e \<longrightarrow> within_capacity e')
      \<and> (no_duplicates e \<longrightarrow> no_duplicates e')"
proof (induction rs arbitrary: s e)
  case Nil
  then show ?case by simp
next
  case (Cons r rs)
  let ?s = "snd (serve castable s eventId r)"
  from serve_keeps_event [of castable eventId s e r] Cons.prems
  obtain e1 where e1: "?s eventId = Some e1" "capacity e1 = capacity e"
    "within_capacity e \<longrightarrow> within_capacity e1" "no_duplicates e \<longrightarrow> no_duplicates e1"
    by blast
  from Cons.IH [of ?s e1] Cons.prems(1) e1(1) obtain e' where
    "snd (serve_all castable ?s eventId rs) eventId = Some e'" "capacity e' = capacity e1"
    "within_capacity e1 \<longrightarrow> within_capacity e'" "no_duplicates e1 \<longrightarrow> no_duplicates e'"
    by blast
  with e1 show ?case
    by (simp add: serve_all_Cons del: serve_all.simps)
qed

lemma serve_all_keeps_member:
  "castable eventId \<Longrightarrow> s eventId = Some e \<Longrightarrow> u \<in> set (attendees e) \<Longrightarrow>
   Leave u \<notin> set rs \<Longrightarrow>
   \<exists>e'. snd (serve_all castable s eventId rs) eventId = Some e' \<and> u \<in> set (attendees e')"
proof (induction rs arbitrary: s e)
  case Nil
  then show ?case by simp
next
  case (Cons r rs)
  let ?s = "snd (serve castable s eventId r)"
  from Cons.prems have "r \<noteq> Leave u" by auto
  with serve_keeps_event [of castable eventId s e r] Cons.prems(1,2,3)
  obtain e1 where e1: "?s eventId = Some e1" "u \<in> set (attendees e1)"
    by blast
  from Cons.prems have "Leave u \<notin> set rs" by simp
  with Cons.IH [of ?s e1] Cons.prems(1) e1 show ?case
    by (simp add: serve_all_Cons del: serve_all.simps)
qed

lemma serve_all_append:
  "serve_all castable s eventId (xs @ ys) =
     (fst (serve_all castable s eventId xs)
        @ fst (serve_all castable (snd (serve_all castable s eventId xs)) eventId ys),
      snd (serve_all castable (snd (serve_all castable s eventId xs)) eventId ys))"
  by (induction xs arbitrary: s) (simp_all add: serve_all_Cons del: serve_all.simps, simp)

lemma length_serve_all: "length (fst (serve_all castable s eventId rs)) = length rs"
  by (induction rs arbitrary: s) (simp_all add: serve_all_Cons del: serve_all.simps, simp)

lemma nth_serve_all:
  "fst (serve_all castable s eventId (pre @ r # rest)) ! length pre =
     fst (serve castable (snd (serve_all castable s eventId pre)) eventId r)"
  by (simp add: serve_all_append serve_all_Cons nth_append length_serve_all
        del: serve_all.simps)

lemma uncastable_run:
  "\<not> castable eventId \<Longrightarrow> snd (serve_all castable s eventId rs) = s"
proof (induction rs)
  case Nil
  then show ?case by simp
next
  case (Cons r rs)
  from Cons.prems have "snd (serve castable s eventId r) = s"
    by (cases r) (simp_all add: rsvp_uncastable unrsvp_uncastable)
  with Cons show ?case
    by (simp add: serve_all_Cons del: serve_all.simps)
qed

lemma join_run_count:
  "castable eventId \<Longrightarrow> s eventId = Some e \<Longrightarrow> within_capacity e \<Longrightarrow>
   int (length (filter succeeded (fst (serve_all castable s eventId (map Join us))))) =
     min (int (card (set us - set (attendees e)))) (capacity e - int (length (attendees e)))"
proof (induction us arbitrary: s e)
  case Nil
  then show ?case by (simp add: within_capacity_def)
next
  case (Cons u us)
  note ih = Cons.IH
  note c = Cons.prems(1)
  consider (member) "u \<in> set (attendees e)"
    | (full) "u \<notin> set (attendees e)" "capacity e \<le> int (length (attendees e))"
    | (room) "u \<notin> set (attendees e)" "int (length (attendees e)) < capacity e"
    by linarith
  then show ?case
  proof cases
    case member
    then have "set (u # us) - set (attendees e) = set us - set (attendees e)"
      by auto
    moreover from c Cons.prems(2) member
    have "serve castable s eventId (Join u) = (refusal_of AlreadyJoined, s)"
      by (rule join_member)
    ultimately show ?thesis
      using ih [of s e] Cons.prems
      by (simp add: serve_all_Cons succeeded_def reply_def del: serve_all.simps serve.simps)
  next
    case full
    with Cons.prems(3) have eq: "capacity e - int (length (attendees e)) = 0"
      by (simp add: within_capacity_def)
    from c Cons.prems(2) full
    have "serve castable s eventId (Join u) = (refusal_of Full, s)"
      by (rule join_full)
    with eq show ?thesis
      using ih [of s e] Cons.prems
      by (simp add: serve_all_Cons succeeded_def reply_def del: serve_all.simps serve.simps)
  next
    case room
    let ?e = "e\<lparr>attendees := attendees e @ [u]\<rparr>"
    let ?s = "s(eventId \<mapsto> ?e)"
    have wc: "within_capacity ?e"
      using room by (simp add: within_capacity_def)
    have rec: "int (length (filter succeeded
          (fst (serve_all castable ?s eventId (map Join us))))) =
        min (int (card (set us - set (attendees ?e)))) (capacity ?e - int (length (attendees ?e)))"
    proof (rule ih)
      show "castable eventId" by (rule c)
      show "?s eventId = Some ?e" by simp
      show "within_capacity ?e" by (rule wc)
    qed
    have "set (u # us) - set (attendees e) = insert u (set us - set (attendees ?e))"
      using room by auto
    then have card: "card (set (u # us) - set (attendees e)) =
        Suc (card (set us - set (attendees ?e)))"
      by simp
    from c Cons.prems(2) room
    have "serve castable s eventId (Join u) =
     (\<lparr>status = 200,
       body = EventWithCount eventId ?e (Suc (length (attendees e)))\<rparr>, ?s)"
      by (rule join_admitted)
    with rec card show ?thesis
      by (simp add: serve_all_Cons succeeded_200 del: serve_all.simps serve.simps)
  qed
qed

text \<open>
  No handler stores a document under a string that cannot be cast, as long as the
  driver's new identifiers can be.
\<close>

lemma serve_keeps_keys:
  "snd (serve castable s eventId r) k \<noteq> None \<Longrightarrow> s k \<noteq> None"
  by (cases r)
    (auto simp add: rsvp_def unrsvp_def Event_findOneAndUpdate_def Event_findById_def
      findOneAndUpdate_def rsvp_query_id unrsvp_query_def Let_def
      split: option.splits if_splits)

lemma serve_keeps_well_keyed:
  "well_keyed castable s \<Longrightarrow> well_keyed castable (snd (serve castable s eventId r))"
  unfolding well_keyed_def using serve_keeps_keys by blast

lemma serve_all_keeps_well_keyed:
  "well_keyed castable s \<Longrightarrow> well_keyed castable (snd (serve_all castable s eventId rs))"
proof (induction rs arbitrary: s)
  case Nil
  then show ?case by simp
next
  case (Cons r rs)
  from Cons.prems have "well_keyed castable (snd (serve castable s eventId r))"
    by (rule serve_keeps_well_keyed)
  then have "well_keyed castable
      (snd (serve_all castable (snd (serve castable s eventId r)) eventId rs))"
    by (rule Cons.IH)
  then show ?case
    by (simp add: serve_all_Cons del: serve_all.simps)
qed

section \<open>Facts about the capacity checks\<close>

text \<open>
  What \<open>POST /\<close> and \<open>PUT /:id\<close>, each served alone, do with the capacity field when
  \<open>parseInt\<close> returns \<open>NaN\<close> or a finite Number: a created event has the parsed capacity,
  at least 1, and no attendees; an edit whose capacity field is truthy and parses to
  \<open>NaN\<close>, to less than 1 or to less than the attendee count is answered 400 and saves
  nothing; and what such an edit saves keeps the attendees and either keeps the
  capacity or sets it to a parsed value within both bounds.
\<close>

lemma put_fields_keeps:
  "attendees (fst (put_fields parse_date form e)) = attendees e
   \<and> capacity (fst (put_fields parse_date form e)) = capacity e
   \<and> createdBy (fst (put_fields parse_date form e)) = createdBy e"
  by (simp add: put_fields_def Let_def)

lemma put_image_keeps:
  "attendees (put_image file e) = attendees e \<and> capacity (put_image file e) = capacity e
   \<and> createdBy (put_image file e) = createdBy e"
  by (simp add: put_image_def split: option.split)

lemma create_refuses_capacity:
  assumes "parseInt (f_capacity form) = None
           \<or> (\<exists>n. parseInt (f_capacity form) = Some n \<and> n < 1)"
  shows "status (fst (create parseInt parse_date new_id s user_id form file)) = 400
         \<and> snd (create parseInt parse_date new_id s user_id form file) = s"
  using assms by (auto simp add: create_def reply_def)

lemma create_sets_capacity:
  assumes "status (fst (create parseInt parse_date new_id s user_id form file)) = 201"
  shows "\<exists>e. snd (create parseInt parse_date new_id s user_id form file) = s(new_id \<mapsto> e)
           \<and> parseInt (f_capacity form) = Some (capacity e) \<and> 1 \<le> capacity e
           \<and> attendees e = [] \<and> createdBy e = user_id"
  using assms
  by (auto simp add: create_def reply_def Let_def split: option.splits if_splits)

lemma create_numeric_zero_capacity:
  "f_capacity form = JNum 0 \<Longrightarrow>
   create parseInt parse_date new_id s user_id form file =
     (reply 400 ''All fields are required'', s)"
  by (simp add: create_def)

lemma put_refuses_capacity:
  assumes "castable eventId" and "s eventId = Some e" and "createdBy e = user_id"
    and "truthy (f_capacity form)"
    and "parseInt (f_capacity form) = None
         \<or> (\<exists>n. parseInt (f_capacity form) = Some n
                \<and> (n < 1 \<or> n < int (length (attendees e))))"
  shows "status (fst (put castable parseInt parse_date s eventId user_id form file)) = 400
         \<and> snd (put castable parseInt parse_date s eventId user_id form file) = s"
proof -
  obtain e4 d where f: "put_fields parse_date form e = (e4, d)"
    by (cases "put_fields parse_date form e")
  with put_fields_keeps [of parse_date form e] have "attendees e4 = attendees e"
    by simp
  with assms(4,5) have "\<exists>m. put_capacity parseInt (f_capacity form) e4 = Inl (reply 400 m)"
    by (auto simp add: put_capacity_def)
  then obtain m where "put_capacity parseInt (f_capacity form) e4 = Inl (reply 400 m)" ..
  with assms(1,2,3) f show ?thesis
    by (simp add: put_def Event_findById_def findById_def reply_def)
qed

lemma put_string_zero_capacity:
  assumes "castable eventId" and "s eventId = Some e" and "createdBy e = user_id"
    and "f_capacity form = JStr ''0''" and "parseInt (JStr ''0'') = Some 0"
  shows "put castable parseInt parse_date s eventId user_id form file =
           (reply 400 ''Capacity must be a positive number'', s)"
proof -
  obtain e4 d where f: "put_fields parse_date form e = (e4, d)"
    by (cases "put_fields parse_date form e")
  from assms(4,5)
  have "put_capacity parseInt (f_capacity form) e4 =
      Inl (reply 400 ''Capacity must be a positive number'')"
    by (simp add: put_capacity_def)
  with assms(1,2,3) f show ?thesis
    by (simp add: put_def Event_findById_def findById_def)
qed

lemma put_keeps_bounds:
  assumes "s eventId = Some e"
    and "snd (put castable parseInt parse_date s eventId user_id form file) eventId = Some e'"
  shows "attendees e' = attendees e
         \<and> (capacity e' = capacity e
              \<or> truthy (f_capacity form) \<and> parseInt (f_capacity form) = Some (capacity e')
                 \<and> 1 \<le> capacity e' \<and> int (length (attendees e)) \<le> capacity e')"
proof (cases "castable eventId")
  case False
  with assms show ?thesis
    by (simp add: put_def Event_findById_def)
next
  case True
  obtain e4 d where f: "put_fields parse_date form e = (e4, d)"
    by (cases "put_fields parse_date form e")
  with put_fields_keeps [of parse_date form e]
  have e4: "attendees e4 = attendees e" "capacity e4 = capacity e"
    by simp_all
  show ?thesis
  proof (cases "put_capacity parseInt (f_capacity form) e4")
    case (Inl refusal)
    with True assms f show ?thesis
      by (simp add: put_def Event_findById_def findById_def split: if_splits)
  next
    case (Inr e5)
    with e4 have e5: "attendees e5 = attendees e"
      "capacity e5 = capacity e
       \<or> truthy (f_capacity form) \<and> parseInt (f_capacity form) = Some (capacity e5)
          \<and> 1 \<le> capacity e5 \<and> int (length (attendees e)) \<le> capacity e5"
      by (auto simp add: put_capacity_def split: if_splits option.splits)
    show ?thesis
    proof (cases d)
      case None
      with True assms f Inr show ?thesis
        by (simp add: put_def Event_findById_def findById_def split: if_splits)
    next
      case (Some t)
      with True assms f Inr e5 put_image_keeps [of "file" e5] show ?thesis
        by (auto simp add: put_def Event_findById_def findById_def Let_def split: if_splits)
    qed
  qed
qed

text \<open>
  Creating, editing and deleting keep the collection's documents under identifiers that
  can be cast, the driver's new identifier being one.
\<close>

lemma create_keeps_well_keyed:
  "castable new_id \<Longrightarrow> well_keyed castable s \<Longrightarrow>
   well_keyed castable (snd (create parseInt parse_date new_id s user_id form file))"
  by (auto simp add: create_def well_keyed_def Let_def split: option.splits if_splits)

lemma put_keeps_well_keyed:
  "well_keyed castable s \<Longrightarrow>
   well_keyed castable (snd (put castable parseInt parse_date s eventId user_id form file))"
  by (auto simp add: put_def Event_findById_def well_keyed_def Let_def
        split: option.splits if_splits sum.splits prod.splits)

lemma delete_keeps_well_keyed:
  "well_keyed castable s \<Longrightarrow>
   well_keyed castable (snd (delete_event castable s eventId user_id))"
  by (auto simp add: delete_event_def Event_findById_def well_keyed_def
        split: option.splits if_splits)

subsection \<open>The sample data\<close>

lemma hex24_e1: "hex24 e1"
  by (simp add: hex24_def e1_def)

lemma hex24_e9: "hex24 e9"
  by (simp add: hex24_def e9_def)

lemma e1_neq_e9: "e1 \<noteq> e9" "e9 \<noteq> e1"
  by (simp_all add: e1_def e9_def)

lemma not_hex24_zz: "\<not> hex24 ''zz''"
  by (simp add: hex24_def)

lemma zz_neq_e1: "''zz'' \<noteq> e1" "e1 \<noteq> ''zz''"
  by (simp_all add: e1_def)

lemma db_e1: "db e1 = Some meetup"
  by (simp add: db_def)

lemma well_keyed_db: "well_keyed hex24 db"
  by (simp add: well_keyed_def db_def hex24_e1)

lemma well_keyed_packed: "well_keyed hex24 packed"
  by (simp add: well_keyed_def packed_def hex24_e1)

text \<open>The definitions and facts a run on the sample data unfolds.\<close>

lemmas run_defs =
  rsvp_def unrsvp_def Event_findOneAndUpdate_def Event_findById_def findOneAndUpdate_def
  findById_def matches_def rsvp_query_def unrsvp_query_def rsvp_refusal_def reply_def
  succeeded_def Let_def db_def meetup_def packed_def hex24_e1 hex24_e9 e1_neq_e9
  not_hex24_zz zz_neq_e1

section \<open>The claims\<close>

text \<open>
  Where a statement below speaks of an existing event it takes the collection to hold
  its documents under ObjectIds (\<open>well_keyed\<close>), as every handler leaves it: a string
  that cannot be cast then names no event.
\<close>

text \<open>
  Claim C1. A join answers 200 exactly when, at the one conditional update, the event
  exists, the participant is not among its attendees and the attendees are fewer than
  the capacity; it then appends the participant to the attendees and answers with the
  updated document and its attendee count. Whatever other requests do between the
  handler's two awaits (\<open>env\<close>) has no part in this. The collection holds its documents
  under ObjectIds, so that a string that cannot be cast names no event.
\<close>

theorem rsvp_succeeds_iff:
  assumes "well_keyed castable s"
  shows "(succeeded (fst (rsvp castable env s eventId userId)) \<longleftrightarrow>
      (\<exists>e. s eventId = Some e \<and> userId \<notin> set (attendees e)
           \<and> int (length (attendees e)) < capacity e))
   \<and> (\<forall>e. s eventId = Some e \<and> userId \<notin> set (attendees e)
           \<and> int (length (attendees e)) < capacity e \<longrightarrow>
         rsvp castable env s eventId userId =
           (\<lparr>status = 200,
             body = EventWithCount eventId (e\<lparr>attendees := attendees e @ [userId]\<rparr>)
                      (Suc (length (attendees e)))\<rparr>,
            s(eventId \<mapsto> e\<lparr>attendees := attendees e @ [userId]\<rparr>)))"
proof (cases "s eventId")
  case None
  with rsvp_succeededD [of castable env s eventId userId] show ?thesis
    by auto
next
  case (Some e)
  with assms have c: "castable eventId"
    by (rule well_keyedD)
  show ?thesis
  proof (cases "userId \<notin> set (attendees e) \<and> int (length (attendees e)) < capacity e")
    case True
    with c Some show ?thesis
      by (simp add: rsvp_admitted succeeded_def)
  next
    case False
    with c Some
    have "rsvp castable env s eventId userId = (rsvp_refusal (env s eventId) userId, env s)"
      by (rule rsvp_refused)
    with Some False show ?thesis
      by (auto simp add: rsvp_refusal_is_refusal_of refusal_of_not_succeeded)
  qed
qed

theorem rsvp_succeeds_iff_witness:
  "well_keyed hex24 db
   \<and> succeeded (fst (rsvp hex24 (\<lambda>x. x) db e1 ''u2''))
   \<and> snd (rsvp hex24 (\<lambda>x. x) db e1 ''u2'') e1 = Some (meetup\<lparr>attendees := [''u1'', ''u2'']\<rparr>)
   \<and> \<not> succeeded (fst (rsvp hex24 (\<lambda>x. x) db e1 ''u1''))
   \<and> \<not> succeeded (fst (rsvp hex24 (\<lambda>x. x) db e9 ''u2''))
   \<and> \<not> succeeded (fst (rsvp hex24 (\<lambda>x. x) db ''zz'' ''u2''))"
  using rsvp_succeeds_iff [OF well_keyed_db, of "\<lambda>x. x" e1 "''u2''"]
    rsvp_succeeds_iff [OF well_keyed_db, of "\<lambda>x. x" e1 "''u1''"]
    rsvp_succeeds_iff [OF well_keyed_db, of "\<lambda>x. x" e9 "''u2''"]
    rsvp_succeeds_iff [OF well_keyed_db, of "\<lambda>x. x" "''zz''" "''u2''"]
    well_keyed_db
  by (simp add: db_def meetup_def succeeded_def e1_neq_e9 zz_neq_e1)

text \<open>
  Claim C2. Take an event with capacity \<open>C\<close> and \<open>M \<le> C\<close> attendees and any run of join
  requests against it. The number of requests answered 200 is the smaller of the
  number of distinct requesting participants who were not attendees at the start and
  \<open>C - M\<close>. After every run of join and leave requests, and so after each request of
  it, the event still has capacity \<open>C\<close> and no more attendees than that.
\<close>

theorem join_capacity_invariant:
  assumes "well_keyed castable s" and "s eventId = Some e" and "within_capacity e"
  shows "int (length (filter succeeded (fst (serve_all castable s eventId (map Join us))))) =
           min (int (card (set us - set (attendees e))))
               (capacity e - int (length (attendees e)))
         \<and> (\<forall>rs. \<exists>e'. snd (serve_all castable s eventId rs) eventId = Some e'
                \<and> capacity e' = capacity e \<and> within_capacity e')"
proof
  from assms(1,2) have c: "castable eventId"
    by (rule well_keyedD)
  from c assms(2,3)
  show "int (length (filter succeeded (fst (serve_all castable s eventId (map Join us))))) =
      min (int (card (set us - set (attendees e)))) (capacity e - int (length (attendees e)))"
    by (rule join_run_count)
  show "\<forall>rs. \<exists>e'. snd (serve_all castable s eventId rs) eventId = Some e'
          \<and> capacity e' = capacity e \<and> within_capacity e'"
  proof
    fix rs
    from serve_all_keeps_event [of castable eventId s e rs] c assms(2,3)
    show "\<exists>e'. snd (serve_all castable s eventId rs) eventId = Some e'
          \<and> capacity e' = capacity e \<and> within_capacity e'"
      by blast
  qed
qed

theorem join_capacity_invariant_witness:
  "well_keyed hex24 db \<and> db e1 = Some meetup \<and> within_capacity meetup
   \<and> int (length (filter succeeded
        (fst (serve_all hex24 db e1 (map Join [''u2'', ''u3'', ''u2'', ''u1'']))))) = 1"
proof -
  have b: "within_capacity meetup" by (simp add: within_capacity_def meetup_def)
  have "set [''u2'', ''u3'', ''u2'', ''u1''] - set (attendees meetup) = {''u2'', ''u3''}"
    by (auto simp add: meetup_def)
  then have c: "card (set [''u2'', ''u3'', ''u2'', ''u1''] - set (attendees meetup)) = 2"
    by simp
  from join_capacity_invariant [OF well_keyed_db db_e1 b, of "[''u2'', ''u3'', ''u2'', ''u1'']"] c
  have "int (length (filter succeeded
        (fst (serve_all hex24 db e1 (map Join [''u2'', ''u3'', ''u2'', ''u1'']))))) = 1"
    by (simp add: meetup_def)
  with well_keyed_db db_e1 b show ?thesis by simp
qed

text \<open>
  Claim C3, as stated, fails: a participant who joined and then left joins again with
  success, as the specification's own state machine has it
  (\<open>Member --Leave--> Absent --Join--> Member\<close>). On the sample event the third request
  of \<open>Join u2, Leave u2, Join u2\<close> is answered 200, not with the already-joined refusal.
\<close>

theorem rejoin_after_leave_succeeds:
  "succeeded (fst (serve_all hex24 db e1 [Join ''u2'', Leave ''u2'', Join ''u2'']) ! 0)
   \<and> succeeded (fst (serve_all hex24 db e1 [Join ''u2'', Leave ''u2'', Join ''u2'']) ! 2)
   \<and> fst (serve_all hex24 db e1 [Join ''u2'', Leave ''u2'', Join ''u2'']) ! 2
       \<noteq> refusal_of AlreadyJoined"
  by (simp add: run_defs)

text \<open>
  Claim C3, amended. Start from an event whose attendees are pairwise distinct. After
  every run of join and leave requests the attendees are still pairwise distinct, so a
  participant is listed at most once. When a join by a participant is answered 200 and
  the same participant asks to join again with no leave of theirs in between, the later
  join is refused with the already-joined message.
\<close>

theorem repeated_join_refused:
  assumes "well_keyed castable s" and "s eventId = Some e" and "no_duplicates e"
  shows "(\<forall>rs. \<exists>e'. snd (serve_all castable s eventId rs) eventId = Some e'
            \<and> no_duplicates e')
    \<and> (\<forall>pre mid post u.
          succeeded (fst (serve_all castable s eventId (pre @ Join u # mid @ Join u # post))
                       ! length pre)
          \<and> Leave u \<notin> set mid \<longrightarrow>
          fst (serve_all castable s eventId (pre @ Join u # mid @ Join u # post))
            ! Suc (length pre + length mid) = refusal_of AlreadyJoined)"
proof (intro conjI allI impI)
  from assms(1,2) have c: "castable eventId"
    by (rule well_keyedD)
  {
    fix rs
    from serve_all_keeps_event [of castable eventId s e rs] c assms(2,3)
    show "\<exists>e'. snd (serve_all castable s eventId rs) eventId = Some e' \<and> no_duplicates e'"
      by blast
  }
  fix pre mid post u
  let ?run = "pre @ Join u # mid @ Join u # post"
  assume h: "succeeded (fst (serve_all castable s eventId ?run) ! length pre)
      \<and> Leave u \<notin> set mid"
  let ?s1 = "snd (serve_all castable s eventId pre)"
  let ?s2 = "snd (serve castable ?s1 eventId (Join u))"
  let ?s3 = "snd (serve_all castable ?s2 eventId mid)"
  from h have ok: "succeeded (fst (rsvp castable (\<lambda>x. x) ?s1 eventId u))"
    by (simp only: nth_serve_all serve.simps)
  from rsvp_succeededD [OF ok]
  obtain e1 where e1: "?s1 eventId = Some e1" "u \<notin> set (attendees e1)"
    "int (length (attendees e1)) < capacity e1"
    by blast
  with c have "?s2 = ?s1(eventId \<mapsto> e1\<lparr>attendees := attendees e1 @ [u]\<rparr>)"
    by (simp add: rsvp_admitted)
  then have e2: "?s2 eventId = Some (e1\<lparr>attendees := attendees e1 @ [u]\<rparr>)"
    and "u \<in> set (attendees (e1\<lparr>attendees := attendees e1 @ [u]\<rparr>))"
    by simp_all
  with serve_all_keeps_member [of castable eventId ?s2 _ u mid] c h
  obtain e3 where e3: "?s3 eventId = Some e3" "u \<in> set (attendees e3)"
    by blast
  have run: "?run = (pre @ Join u # mid) @ Join u # post" by simp
  have len: "Suc (length pre + length mid) = length (pre @ Join u # mid)" by simp
  have state: "snd (serve_all castable s eventId (pre @ Join u # mid)) = ?s3"
    by (simp add: serve_all_append serve_all_Cons del: serve_all.simps serve.simps)
  have "fst (serve_all castable s eventId ?run) ! Suc (length pre + length mid) =
      fst (serve castable ?s3 eventId (Join u))"
    unfolding len by (subst run, simp only: nth_serve_all state)
  also from c e3 have "\<dots> = refusal_of AlreadyJoined"
    by (simp only: join_member fst_conv)
  finally show "fst (serve_all castable s eventId ?run) ! Suc (length pre + length mid) =
      refusal_of AlreadyJoined" .
qed

theorem repeated_join_refused_witness:
  "well_keyed hex24 db \<and> db e1 = Some meetup \<and> no_duplicates meetup
   \<and> succeeded (fst (serve_all hex24 db e1
        [Leave ''u1'', Join ''u2'', Join ''u3'', Join ''u2'']) ! 1)
   \<and> fst (serve_all hex24 db e1 [Leave ''u1'', Join ''u2'', Join ''u3'', Join ''u2'']) ! 3
       = refusal_of AlreadyJoined"
proof -
  have b: "no_duplicates meetup" by (simp add: no_duplicates_def meetup_def)
  have c: "succeeded (fst (serve_all hex24 db e1
      [Leave ''u1'', Join ''u2'', Join ''u3'', Join ''u2'']) ! 1)"
    by (simp add: run_defs)
  note repeated_join_refused [OF well_keyed_db db_e1 b,
      THEN conjunct2, rule_format,
      where pre = "[Leave ''u1'']" and u = "''u2''" and mid = "[Join ''u3'']" and post = "[]"]
  with c
  have "fst (serve_all hex24 db e1 ([Leave ''u1''] @ Join ''u2'' # [Join ''u3''] @ Join ''u2'' # []))
            ! Suc (length [Leave ''u1''] + length [Join ''u3'']) = refusal_of AlreadyJoined"
    by (simp del: serve_all.simps)
  with well_keyed_db db_e1 b c show ?thesis
    by (simp add: eval_nat_numeral del: serve_all.simps)
qed

text \<open>
  Claim C4. Leaving an existing event is answered 200 whatever the capacity and the
  attendee count are, and removes the participant from the attendees. Leaving a second
  time in a row gives the same answer and the same collection as the first time, and
  for a participant who is not an attendee the collection is unchanged.
\<close>

theorem unrsvp_idempotent:
  assumes "well_keyed castable s" and "s eventId = Some e"
  shows "unrsvp castable s eventId userId =
           (\<lparr>status = 200,
             body = EventWithCount eventId
                      (e\<lparr>attendees := filter (\<lambda>a. a \<noteq> userId) (attendees e)\<rparr>)
                      (length (filter (\<lambda>a. a \<noteq> userId) (attendees e)))\<rparr>,
            s(eventId \<mapsto> e\<lparr>attendees := filter (\<lambda>a. a \<noteq> userId) (attendees e)\<rparr>))
         \<and> unrsvp castable (snd (unrsvp castable s eventId userId)) eventId userId
             = unrsvp castable s eventId userId
         \<and> (userId \<notin> set (attendees e) \<longrightarrow>
              unrsvp castable s eventId userId =
                (\<lparr>status = 200, body = EventWithCount eventId e (length (attendees e))\<rparr>, s))"
proof (intro conjI impI)
  from assms have c: "castable eventId"
    by (rule well_keyedD)
  let ?e = "e\<lparr>attendees := filter (\<lambda>a. a \<noteq> userId) (attendees e)\<rparr>"
  from c assms(2) show first: "unrsvp castable s eventId userId =
      (\<lparr>status = 200, body = EventWithCount eventId ?e
          (length (filter (\<lambda>a. a \<noteq> userId) (attendees e)))\<rparr>, s(eventId \<mapsto> ?e))"
    by (rule unrsvp_existing)
  have "(s(eventId \<mapsto> ?e)) eventId = Some ?e" by simp
  with c have "unrsvp castable (s(eventId \<mapsto> ?e)) eventId userId =
      (\<lparr>status = 200,
        body = EventWithCount eventId (?e\<lparr>attendees := filter (\<lambda>a. a \<noteq> userId) (attendees ?e)\<rparr>)
                 (length (filter (\<lambda>a. a \<noteq> userId) (attendees ?e)))\<rparr>,
       (s(eventId \<mapsto> ?e))(eventId \<mapsto> ?e\<lparr>attendees := filter (\<lambda>a. a \<noteq> userId) (attendees ?e)\<rparr>))"
    by (rule unrsvp_existing)
  with first
  show "unrsvp castable (snd (unrsvp castable s eventId userId)) eventId userId
      = unrsvp castable s eventId userId"
    by simp
  {
    assume "userId \<notin> set (attendees e)"
    then have "filter (\<lambda>a. a \<noteq> userId) (attendees e) = attendees e"
      by (simp add: filter_id_conv) blast
    moreover from assms(2) have "s(eventId \<mapsto> e) = s"
      by (rule map_upd_triv)
    ultimately show "unrsvp castable s eventId userId =
        (\<lparr>status = 200, body = EventWithCount eventId e (length (attendees e))\<rparr>, s)"
      using c assms(2) by (simp add: unrsvp_existing)
  }
qed

theorem unrsvp_idempotent_witness:
  "well_keyed hex24 db \<and> db e1 = Some meetup \<and> ''u5'' \<notin> set (attendees meetup)
   \<and> unrsvp hex24 db e1 ''u5'' =
       (\<lparr>status = 200, body = EventWithCount e1 meetup 1\<rparr>, db)
   \<and> snd (unrsvp hex24 (snd (unrsvp hex24 db e1 ''u1'')) e1 ''u1'') e1
       = Some (meetup\<lparr>attendees := []\<rparr>)"
proof -
  have b: "''u5'' \<notin> set (attendees meetup)" by (simp add: meetup_def)
  have c: "length (attendees meetup) = 1" by (simp add: meetup_def)
  have d: "filter (\<lambda>a. a \<noteq> ''u1'') (attendees meetup) = []" by (simp add: meetup_def)
  note stranger = unrsvp_idempotent [OF well_keyed_db db_e1, where userId = "''u5''"]
  note member = unrsvp_idempotent [OF well_keyed_db db_e1, where userId = "''u1''"]
  from stranger [THEN conjunct2, THEN conjunct2] b c
  have first: "unrsvp hex24 db e1 ''u5'' =
      (\<lparr>status = 200, body = EventWithCount e1 meetup 1\<rparr>, db)"
    by simp
  have "snd (unrsvp hex24 (snd (unrsvp hex24 db e1 ''u1'')) e1 ''u1'')
      = snd (unrsvp hex24 db e1 ''u1'')"
    by (simp only: member [THEN conjunct2, THEN conjunct1])
  also have "\<dots> = db(e1 \<mapsto> meetup\<lparr>attendees := []\<rparr>)"
    by (simp only: member [THEN conjunct1] snd_conv d)
  finally have "snd (unrsvp hex24 (snd (unrsvp hex24 db e1 ''u1'')) e1 ''u1'') e1
       = Some (meetup\<lparr>attendees := []\<rparr>)"
    by simp
  with first well_keyed_db db_e1 b show ?thesis by simp
qed

text \<open>
  Claim C5. When a join is answered 200 and the same participant leaves right after,
  the leave is answered 200 and the collection, and with it the event's attendees, is
  again what it was before the join.
\<close>

theorem join_then_leave_restores:
  assumes "succeeded (fst (rsvp castable env s eventId userId))"
  shows "succeeded (fst (unrsvp castable (snd (rsvp castable env s eventId userId))
                     eventId userId))
         \<and> snd (unrsvp castable (snd (rsvp castable env s eventId userId)) eventId userId) = s"
proof -
  from rsvp_succeededD [OF assms]
  obtain e where c: "castable eventId" and e: "s eventId = Some e"
    "userId \<notin> set (attendees e)" "int (length (attendees e)) < capacity e"
    by blast
  let ?e = "e\<lparr>attendees := attendees e @ [userId]\<rparr>"
  from c e have joined: "snd (rsvp castable env s eventId userId) = s(eventId \<mapsto> ?e)"
    by (simp add: rsvp_admitted)
  have "(s(eventId \<mapsto> ?e)) eventId = Some ?e" by simp
  with c have left: "unrsvp castable (s(eventId \<mapsto> ?e)) eventId userId =
      (\<lparr>status = 200,
        body = EventWithCount eventId (?e\<lparr>attendees := filter (\<lambda>a. a \<noteq> userId) (attendees ?e)\<rparr>)
                 (length (filter (\<lambda>a. a \<noteq> userId) (attendees ?e)))\<rparr>,
       (s(eventId \<mapsto> ?e))(eventId \<mapsto> ?e\<lparr>attendees := filter (\<lambda>a. a \<noteq> userId) (attendees ?e)\<rparr>))"
    by (rule unrsvp_existing)
  from e(2) have "filter (\<lambda>a. a \<noteq> userId) (attendees e) = attendees e"
    by (simp add: filter_id_conv) blast
  then have "?e\<lparr>attendees := filter (\<lambda>a. a \<noteq> userId) (attendees ?e)\<rparr> = e"
    by simp
  moreover from e(1) have "s(eventId \<mapsto> e) = s"
    by (rule map_upd_triv)
  ultimately show ?thesis
    using joined left by (simp add: succeeded_200)
qed

theorem join_then_leave_restores_witness:
  "succeeded (fst (rsvp hex24 (\<lambda>x. x) db e1 ''u2''))
   \<and> snd (unrsvp hex24 (snd (rsvp hex24 (\<lambda>x. x) db e1 ''u2'')) e1 ''u2'') = db"
proof -
  have a: "succeeded (fst (rsvp hex24 (\<lambda>x. x) db e1 ''u2''))"
    by (simp add: run_defs)
  from join_then_leave_restores [OF a] a show ?thesis by simp
qed

text \<open>
  Claim C6. When the conditional update of a join returns \<open>null\<close>, the handler answers
  with the refusal of exactly the reason that the specification's classification gives
  for the event as read afterwards (not found, already joined, full, or else conflict).
  The answer is never a 200, the handler itself has changed nothing, and the four
  reasons have four different answers.
\<close>

theorem rsvp_refusal_classified:
  assumes "Event_findOneAndUpdate castable s (rsvp_query eventId userId) (AddToSet userId)
             = Inr (None, s')"
  shows "fst (rsvp castable env s eventId userId) =
           refusal_of (spec_classify (findById (env s) eventId) userId)
         \<and> \<not> succeeded (fst (rsvp castable env s eventId userId))
         \<and> snd (rsvp castable env s eventId userId) = env s
         \<and> (\<forall>r r'. refusal_of r = refusal_of r' \<longrightarrow> r = r')"
proof -
  from assms have c: "castable eventId"
    by (simp add: Event_findOneAndUpdate_def rsvp_query_id split: if_splits)
  with assms
  have null: "findOneAndUpdate s (rsvp_query eventId userId) (AddToSet userId) = (None, s')"
    by (simp add: Event_findOneAndUpdate_def rsvp_query_id)
  with findOneAndUpdate_null [of s "rsvp_query eventId userId" "AddToSet userId"]
  have "s' = s" by simp
  with assms c
  have "rsvp castable env s eventId userId = (rsvp_refusal (findById (env s) eventId) userId, env s)"
    by (simp add: rsvp_def Event_findById_def Let_def)
  then show ?thesis
    by (auto simp add: rsvp_refusal_is_refusal_of refusal_of_not_succeeded dest: refusal_of_inj)
qed

theorem rsvp_refusal_classified_witness:
  "Event_findOneAndUpdate hex24 packed (rsvp_query e1 ''u3'') (AddToSet ''u3'')
     = Inr (None, packed)
   \<and> fst (rsvp hex24 (\<lambda>t. snd (unrsvp hex24 t e1 ''u1'')) packed e1 ''u3'') = refusal_of Conflict
   \<and> fst (rsvp hex24 (\<lambda>t. t) packed e1 ''u3'') = refusal_of Full
   \<and> snd (rsvp hex24 (\<lambda>t. t) packed e1 ''u3'') = packed"
proof -
  have a: "Event_findOneAndUpdate hex24 packed (rsvp_query e1 ''u3'') (AddToSet ''u3'')
      = Inr (None, packed)"
    by (simp add: run_defs)
  have b: "spec_classify (findById (snd (unrsvp hex24 packed e1 ''u1'')) e1) ''u3'' = Conflict"
    by (simp add: run_defs spec_classify_def)
  have c: "spec_classify (findById packed e1) ''u3'' = Full"
    by (simp add: run_defs spec_classify_def)
  from rsvp_refusal_classified [OF a, of "\<lambda>t. snd (unrsvp hex24 t e1 ''u1'')"]
    rsvp_refusal_classified [OF a, of "\<lambda>t. t"] a b c
  show ?thesis by simp
qed

text \<open>
  Claim C7, as stated, fails: for an event identifier that cannot be cast to an
  ObjectId no event exists, and the query throws before it reaches the store, so that
  the handler's \<open>catch\<close> answers 500 and not the not-found refusal. No handler of the
  router checks the identifier first. On the sample collection the identifier \<open>zz\<close> is
  such a one.
\<close>

theorem unrsvp_uncastable_server_error:
  "db ''zz'' = None
   \<and> unrsvp hex24 db ''zz'' ''u1'' = (reply 500 ''Server error'', db)
   \<and> fst (unrsvp hex24 db ''zz'' ''u1'') \<noteq> refusal_of NotFound"
  by (simp add: unrsvp_uncastable not_hex24_zz db_def zz_neq_e1 reply_def)

text \<open>
  Claim C7, amended. For an event identifier that can be cast to an ObjectId, a leave is
  answered with the not-found refusal exactly when the event does not exist; an
  identifier that cannot be cast is answered 500 and nothing is changed. For every
  existing event the leave is answered 200 with the updated document and its attendee
  count, whether or not the participant was an attendee.
\<close>

theorem unrsvp_not_found_iff:
  assumes "well_keyed castable s"
  shows "(castable eventId \<longrightarrow>
           (fst (unrsvp castable s eventId userId) = refusal_of NotFound
              \<longleftrightarrow> s eventId = None))
   \<and> (\<not> castable eventId \<longrightarrow>
         unrsvp castable s eventId userId = (reply 500 ''Server error'', s))
   \<and> (\<forall>e. s eventId = Some e \<longrightarrow>
         unrsvp castable s eventId userId =
           (\<lparr>status = 200,
             body = EventWithCount eventId
                      (e\<lparr>attendees := filter (\<lambda>a. a \<noteq> userId) (attendees e)\<rparr>)
                      (length (filter (\<lambda>a. a \<noteq> userId) (attendees e)))\<rparr>,
            s(eventId \<mapsto> e\<lparr>attendees := filter (\<lambda>a. a \<noteq> userId) (attendees e)\<rparr>)))"
proof (cases "castable eventId")
  case False
  with assms have "s eventId = None"
    by (cases "s eventId") (auto dest: well_keyedD)
  with False show ?thesis
    by (simp add: unrsvp_uncastable)
next
  case True
  show ?thesis
  proof (cases "s eventId")
    case None
    with True show ?thesis by (simp add: unrsvp_missing)
  next
    case (Some e)
    with True show ?thesis by (simp add: unrsvp_existing reply_def)
  qed
qed

theorem unrsvp_not_found_iff_witness:
  "well_keyed hex24 db \<and> hex24 e9 \<and> hex24 e1 \<and> \<not> hex24 ''zz''
   \<and> fst (unrsvp hex24 db e9 ''u1'') = refusal_of NotFound
   \<and> fst (unrsvp hex24 db e1 ''u1'') \<noteq> refusal_of NotFound
   \<and> succeeded (fst (unrsvp hex24 db e1 ''u7''))
   \<and> unrsvp hex24 db ''zz'' ''u1'' = (reply 500 ''Server error'', db)"
proof -
  have a: "db e9 = None"
    by (simp add: db_def e1_neq_e9)
  note t = unrsvp_not_found_iff [OF well_keyed_db]
  from t [of e9 "''u1''", THEN conjunct1] a hex24_e9
  have "fst (unrsvp hex24 db e9 ''u1'') = refusal_of NotFound" by simp
  moreover from t [of e1 "''u1''", THEN conjunct1] db_e1 hex24_e1
  have "fst (unrsvp hex24 db e1 ''u1'') \<noteq> refusal_of NotFound" by simp
  moreover from t [of e1 "''u7''", THEN conjunct2, THEN conjunct2] db_e1
  have "succeeded (fst (unrsvp hex24 db e1 ''u7''))" by (simp add: succeeded_200)
  moreover from t [of "''zz''" "''u1''", THEN conjunct2, THEN conjunct1] not_hex24_zz
  have "unrsvp hex24 db ''zz'' ''u1'' = (reply 500 ''Server error'', db)" by simp
  ultimately show ?thesis
    using well_keyed_db hex24_e1 hex24_e9 not_hex24_zz by simp
qed

text \<open>
  Claim C8. When the caller is not the event's creator, an edit and a delete are both
  answered 403 and the collection is left as it was, whatever the request carries.
  Conversely an edit or a delete that changes the collection comes from the creator of
  an existing event.
\<close>

theorem only_creator_edits:
  assumes "well_keyed castable s"
  shows "(\<forall>e. s eventId = Some e \<and> createdBy e \<noteq> user_id \<longrightarrow>
       put castable parseInt parse_date s eventId user_id form file =
         (reply 403 ''Not authorized to edit this event'', s)
       \<and> delete_event castable s eventId user_id =
         (reply 403 ''Not authorized to delete this event'', s))
   \<and> (snd (put castable parseInt parse_date s eventId user_id form file) \<noteq> s \<longrightarrow>
         (\<exists>e. s eventId = Some e \<and> createdBy e = user_id))
   \<and> (snd (delete_event castable s eventId user_id) \<noteq> s \<longrightarrow>
         (\<exists>e. s eventId = Some e \<and> createdBy e = user_id))"
proof (intro conjI allI impI)
  fix e
  assume h: "s eventId = Some e \<and> createdBy e \<noteq> user_id"
  with assms have c: "castable eventId"
    by (auto dest: well_keyedD)
  from h c show "put castable parseInt parse_date s eventId user_id form file =
      (reply 403 ''Not authorized to edit this event'', s)"
    by (simp add: put_def Event_findById_def findById_def)
  from h c show "delete_event castable s eventId user_id =
      (reply 403 ''Not authorized to delete this event'', s)"
    by (simp add: delete_event_def Event_findById_def findById_def)
next
  assume changed: "snd (put castable parseInt parse_date s eventId user_id form file) \<noteq> s"
  then have c: "castable eventId"
    by (auto simp add: put_def Event_findById_def split: if_splits)
  show "\<exists>e. s eventId = Some e \<and> createdBy e = user_id"
  proof (cases "s eventId")
    case None
    with changed c show ?thesis by (simp add: put_def Event_findById_def findById_def)
  next
    case (Some e)
    with changed c show ?thesis
      by (cases "createdBy e = user_id")
        (simp_all add: put_def Event_findById_def findById_def)
  qed
next
  assume changed: "snd (delete_event castable s eventId user_id) \<noteq> s"
  then have c: "castable eventId"
    by (auto simp add: delete_event_def Event_findById_def split: if_splits)
  show "\<exists>e. s eventId = Some e \<and> createdBy e = user_id"
  proof (cases "s eventId")
    case None
    with changed c show ?thesis
      by (simp add: delete_event_def Event_findById_def findById_def)
  next
    case (Some e)
    with changed c show ?thesis
      by (cases "createdBy e = user_id")
        (simp_all add: delete_event_def Event_findById_def findById_def)
  qed
qed

theorem only_creator_edits_witness:
  "well_keyed hex24 db \<and> db e1 = Some meetup \<and> createdBy meetup \<noteq> ''u9''
   \<and> put hex24 (\<lambda>v. Some 5) (\<lambda>v. Some 0) db e1 ''u9''
        (no_form\<lparr>f_title := JStr ''Taken over'', f_capacity := JStr ''5''\<rparr>) None =
        (reply 403 ''Not authorized to edit this event'', db)
   \<and> delete_event hex24 db e1 ''u9'' = (reply 403 ''Not authorized to delete this event'', db)"
proof -
  have b: "createdBy meetup \<noteq> ''u9''" by (simp add: meetup_def)
  from only_creator_edits [OF well_keyed_db, of e1 "''u9''" "\<lambda>v. Some 5" "\<lambda>v. Some 0"
      "no_form\<lparr>f_title := JStr ''Taken over'', f_capacity := JStr ''5''\<rparr>" None,
      THEN conjunct1, rule_format, of meetup] db_e1 b well_keyed_db
  show ?thesis by simp
qed

text \<open>
  Claim C10. The refusal is worded in a fixed order: a missing event is not found; else
  an attendee has already joined, also when the event is at capacity; else an event
  with at least as many attendees as its capacity is full; else the answer is the
  conflict. A handler running alone answers an attendee of a full event with the
  already-joined refusal and changes nothing.
\<close>

theorem rsvp_refusal_priority:
  "rsvp_refusal None userId = refusal_of NotFound
   \<and> (userId \<in> set (attendees ex) \<longrightarrow> rsvp_refusal (Some ex) userId = refusal_of AlreadyJoined)
   \<and> (userId \<notin> set (attendees ex) \<and> capacity ex \<le> int (length (attendees ex)) \<longrightarrow>
        rsvp_refusal (Some ex) userId = refusal_of Full)
   \<and> (userId \<notin> set (attendees ex) \<and> int (length (attendees ex)) < capacity ex \<longrightarrow>
        rsvp_refusal (Some ex) userId = refusal_of Conflict)
   \<and> (well_keyed castable s \<and> s eventId = Some ex \<and> userId \<in> set (attendees ex)
        \<and> capacity ex \<le> int (length (attendees ex)) \<longrightarrow>
        rsvp castable (\<lambda>x. x) s eventId userId = (refusal_of AlreadyJoined, s))"
proof (intro conjI impI)
  assume h: "well_keyed castable s \<and> s eventId = Some ex \<and> userId \<in> set (attendees ex)
        \<and> capacity ex \<le> int (length (attendees ex))"
  then have c: "castable eventId"
    by (auto dest: well_keyedD)
  with h have "rsvp castable (\<lambda>x. x) s eventId userId = (rsvp_refusal (s eventId) userId, s)"
    by (simp add: rsvp_refused)
  with h show "rsvp castable (\<lambda>x. x) s eventId userId = (refusal_of AlreadyJoined, s)"
    by (simp add: rsvp_refusal_def)
qed (simp_all add: rsvp_refusal_def)

theorem rsvp_refusal_priority_witness:
  "well_keyed hex24 packed
   \<and> packed e1 = Some (meetup\<lparr>attendees := [''u1'', ''u2'']\<rparr>)
   \<and> ''u1'' \<in> set (attendees (meetup\<lparr>attendees := [''u1'', ''u2'']\<rparr>))
   \<and> capacity (meetup\<lparr>attendees := [''u1'', ''u2'']\<rparr>)
        \<le> int (length (attendees (meetup\<lparr>attendees := [''u1'', ''u2'']\<rparr>)))
   \<and> rsvp hex24 (\<lambda>x. x) packed e1 ''u1'' = (refusal_of AlreadyJoined, packed)
   \<and> rsvp_refusal (packed e1) ''u3'' = refusal_of Full"
proof -
  let ?ex = "meetup\<lparr>attendees := [''u1'', ''u2'']\<rparr>"
  have a: "packed e1 = Some ?ex" by (simp add: packed_def)
  have b: "''u1'' \<in> set (attendees ?ex)" by simp
  have c: "capacity ?ex \<le> int (length (attendees ?ex))" by (simp add: meetup_def)
  have d: "''u3'' \<notin> set (attendees ?ex)" by simp
  note t = rsvp_refusal_priority
    [where ex = "?ex" and s = packed and eventId = e1 and castable = hex24]
  from t [where userId = "''u1''"] a b c well_keyed_packed
  have "rsvp hex24 (\<lambda>x. x) packed e1 ''u1'' = (refusal_of AlreadyJoined, packed)"
    by blast
  moreover from t [where userId = "''u3''"] c d
  have "rsvp_refusal (Some ?ex) ''u3'' = refusal_of Full"
    by blast
  ultimately show ?thesis using a b c well_keyed_packed by simp
qed

text \<open>
  Claim C9 says that an edit asking for a capacity below 1 is rejected. The creator's
  edit with the JSON body \<open>{"capacity": 0}\<close> is not: \<open>if (capacity)\<close> takes the number 0
  for no capacity at all, the checks are skipped, \<open>parseInt\<close> is not even called, the
  document is saved and the answer is 200. The capacity stays what it was. The same
  value as the string \<open>"0"\<close> is answered 400 (\<open>put_string_zero_capacity\<close>), and
  \<open>POST /\<close> answers 400 to the number 0 (\<open>create_numeric_zero_capacity\<close>).
\<close>

theorem put_numeric_zero_capacity:
  "put hex24 parseInt parse_date db e1 ''u0'' (no_form\<lparr>f_capacity := JNum 0\<rparr>) None =
     (\<lparr>status = 200, body = EventJson e1 meetup\<rparr>, db)"
proof -
  have "db(e1 \<mapsto> meetup) = db" by (simp add: db_def)
  then show ?thesis
    by (simp add: put_def Event_findById_def findById_def put_fields_def put_capacity_def
          put_image_def no_form_def db_e1 hex24_e1) (simp add: meetup_def)
qed


end
